theory Spec2Isabelle
  imports Main "HOL-Library.Multiset"
begin

section \<open>Data model\<close>

text \<open>
  The types \<open>Card\<close>, \<open>Suit\<close>, \<open>Rank\<close>, \<open>GameState\<close> and \<open>GameStatus\<close> are imported by
  \<^verbatim>\<open>App.tsx\<close> from \<^verbatim>\<open>./types\<close>; their declarations follow the component in the source file.
  \<^verbatim>\<open>type Suit = 'hearts' | 'diamonds' | 'clubs' | 'spades'\<close>
\<close>

datatype Suit = Hearts | Diamonds | Clubs | Spades

text \<open>
  \<^verbatim>\<open>type Rank = 'A' | '2' | '3' | '4' | '5' | '6' | '7' | '8' | '9' | '10' | 'J' | 'Q' | 'K'\<close>
\<close>

datatype Rank = RA | R2 | R3 | R4 | R5 | R6 | R7 | R8 | R9 | R10 | RJ | RQ | RK

record Card =
  id_card :: string
  suit :: Suit
  rank :: Rank

datatype Actor = Player | Ai

datatype GameStatus = Waiting | Playing | SuitPicking | GameOver

record GameState =
  playerHand :: "Card list"
  aiHand :: "Card list"
  drawPile :: "Card list"
  discardPile :: "Card list"
  currentSuit :: Suit
  currentRank :: Rank
  turn :: Actor
  status :: GameStatus
  winner :: "Actor option"

text \<open>
  The texts handed to \<^verbatim>\<open>setMessage\<close>, one constructor per call site, with the values
  interpolated into the text as arguments.
\<close>

datatype Notification =
    MsgYourTurn
  | MsgPlayerWins
  | MsgAiWins
  | MsgAiPlayed Suit Rank
  | MsgAiEight Suit
  | MsgAiDrew
  | MsgAiSkipped
  | MsgInvalidPlay
  | MsgPlayedEight
  | MsgPlayed Suit Rank
  | MsgDrawPileEmpty
  | MsgDrew Suit Rank
  | MsgSuitChanged Suit

text \<open>Reading a property of \<^verbatim>\<open>undefined\<close> throws a \<^verbatim>\<open>TypeError\<close>.\<close>

datatype error = TypeError

section \<open>The deal\<close>

definition INITIAL_HAND_SIZE :: nat where
  "INITIAL_HAND_SIZE = 8"

text \<open>
  \<^verbatim>\<open>let firstCardIndex = 0; while (deck[firstCardIndex].rank === '8') firstCardIndex++;\<close>
  An index past the end reads \<^verbatim>\<open>undefined\<close>, whose \<^verbatim>\<open>.rank\<close> throws.
\<close>

function firstCardIndex :: "Card list \<Rightarrow> nat \<Rightarrow> error + nat" where
  "firstCardIndex deck i =
     (if length deck \<le> i then Inl TypeError
      else if rank (deck ! i) = R8 then firstCardIndex deck (Suc i)
      else Inr i)"
  by pat_completeness auto
termination
  by (relation "measure (\<lambda>(deck, i). length deck - i)") auto

declare firstCardIndex.simps [simp del]

text \<open>
  The same loop, recording the indices at which it reads \<^verbatim>\<open>deck[firstCardIndex]\<close>, in order.
  The loop itself compares no index with the length of the deck.
\<close>

function scanReads :: "Card list \<Rightarrow> nat \<Rightarrow> nat list" where
  "scanReads deck i =
     (if length deck \<le> i then [i]
      else if rank (deck ! i) = R8 then i # scanReads deck (Suc i)
      else [i])"
  by pat_completeness auto
termination
  by (relation "measure (\<lambda>(deck, i). length deck - i)") auto

declare scanReads.simps [simp del]

text \<open>
  \<^verbatim>\<open>initGame\<close>, with the shuffled deck \<^verbatim>\<open>shuffle(createDeck())\<close> as its argument.
  \<^verbatim>\<open>deck.splice(0, n)\<close> returns the first \<open>n\<close> elements and leaves the rest in \<open>deck\<close>;
  \<^verbatim>\<open>deck.splice(i, 1)[0]\<close> removes and returns the element at \<open>i\<close>.
\<close>

definition initGame :: "Card list \<Rightarrow> error + (GameState \<times> Notification)" where
  "initGame deck0 =
     (let playerHand0 = take INITIAL_HAND_SIZE deck0;
          deck1 = drop INITIAL_HAND_SIZE deck0;
          aiHand0 = take INITIAL_HAND_SIZE deck1;
          deck2 = drop INITIAL_HAND_SIZE deck1
      in case firstCardIndex deck2 0 of
           Inl e \<Rightarrow> Inl e
         | Inr i \<Rightarrow>
             (let discardPile0 = [deck2 ! i];
                  drawPile0 = take i deck2 @ drop (Suc i) deck2
              in Inr (\<lparr> playerHand = playerHand0,
                         aiHand = aiHand0,
                         drawPile = drawPile0,
                         discardPile = discardPile0,
                         currentSuit = suit (discardPile0 ! 0),
                         currentRank = rank (discardPile0 ! 0),
                         turn = Player,
                         status = Playing,
                         winner = None \<rparr>, MsgYourTurn)))"

section \<open>The win check\<close>

text \<open>The effect that runs after every render in which a hand length or the status changed.\<close>

definition checkWin :: "GameState \<Rightarrow> GameState \<times> Notification option" where
  "checkWin s =
     (if status s = Playing then
        (if length (playerHand s) = 0 then
           (s\<lparr>status := GameOver, winner := Some Player\<rparr>, Some MsgPlayerWins)
         else if length (aiHand s) = 0 then
           (s\<lparr>status := GameOver, winner := Some Ai\<rparr>, Some MsgAiWins)
         else (s, None))
      else (s, None))"

section \<open>The opponent's turn\<close>

text \<open>\<^verbatim>\<open>Array.prototype.findIndex\<close>; the result \<^verbatim>\<open>-1\<close> is \<open>None\<close>.\<close>

fun findIndex :: "('a \<Rightarrow> bool) \<Rightarrow> 'a list \<Rightarrow> nat option" where
  "findIndex P [] = None"
| "findIndex P (x # xs) = (if P x then Some 0 else map_option Suc (findIndex P xs))"

text \<open>\<^verbatim>\<open>xs.filter((_, i) => i !== k)\<close>\<close>

definition filterIndexNot :: "nat \<Rightarrow> 'a list \<Rightarrow> 'a list" where
  "filterIndexNot k xs = map snd (filter (\<lambda>(i, _). i \<noteq> k) (enumerate 0 xs))"

text \<open>
  \<^verbatim>\<open>const suitCounts = { hearts: 0, diamonds: 0, clubs: 0, spades: 0 };\<close>
  \<^verbatim>\<open>newAiHand.forEach(c => suitCounts[c.suit]++);\<close>
\<close>

definition suitCounts :: "Card list \<Rightarrow> Suit \<Rightarrow> nat" where
  "suitCounts hand = foldl (\<lambda>m c. m(suit c := m (suit c) + 1)) (\<lambda>_. 0) hand"

text \<open>\<^verbatim>\<open>Object.keys(suitCounts)\<close>: the keys in insertion order.\<close>

definition suitKeys :: "Suit list" where
  "suitKeys = [Hearts, Diamonds, Clubs, Spades]"

text \<open>
  \<^verbatim>\<open>keys.reduce((a, b) => suitCounts[a] > suitCounts[b] ? a : b)\<close>: without an initial
  value, the accumulator starts as the first key and the callback runs on the others.
\<close>

definition bestSuit :: "Card list \<Rightarrow> Suit" where
  "bestSuit hand =
     (let counts = suitCounts hand
      in foldl (\<lambda>a b. if counts a > counts b then a else b) (hd suitKeys) (tl suitKeys))"

definition aiMatches :: "GameState \<Rightarrow> Card \<Rightarrow> bool" where
  "aiMatches s c \<longleftrightarrow> rank c \<noteq> R8 \<and> (suit c = currentSuit s \<or> rank c = currentRank s)"

definition handleAiTurn :: "GameState \<Rightarrow> GameState \<times> Notification option" where
  "handleAiTurn s =
     (case findIndex (aiMatches s) (aiHand s) of
        Some playableIndex \<Rightarrow>
          (let card' = aiHand s ! playableIndex;
               newAiHand = filterIndexNot playableIndex (aiHand s)
           in (s\<lparr>aiHand := newAiHand,
                 discardPile := card' # discardPile s,
                 currentSuit := suit card',
                 currentRank := rank card',
                 turn := Player\<rparr>, Some (MsgAiPlayed (suit card') (rank card'))))
      | None \<Rightarrow>
          (case findIndex (\<lambda>c. rank c = R8) (aiHand s) of
             Some eightIndex \<Rightarrow>
               (let card' = aiHand s ! eightIndex;
                    newAiHand = filterIndexNot eightIndex (aiHand s)
                in (s\<lparr>aiHand := newAiHand,
                      discardPile := card' # discardPile s,
                      currentSuit := bestSuit newAiHand,
                      currentRank := R8,
                      turn := Player\<rparr>, Some (MsgAiEight (bestSuit newAiHand))))
           | None \<Rightarrow>
               (case drawPile s of
                  drawnCard # remainingDrawPile \<Rightarrow>
                    (s\<lparr>aiHand := aiHand s @ [drawnCard],
                       drawPile := remainingDrawPile,
                       turn := Player\<rparr>, Some MsgAiDrew)
                | [] \<Rightarrow> (s\<lparr>turn := Player\<rparr>, Some MsgAiSkipped))))"

section \<open>The player's actions\<close>

definition isEight :: "Card \<Rightarrow> bool" where
  "isEight card' \<longleftrightarrow> rank card' = R8"

definition isValid :: "GameState \<Rightarrow> Card \<Rightarrow> bool" where
  "isValid s card' \<longleftrightarrow> isEight card' \<or> suit card' = currentSuit s \<or> rank card' = currentRank s"

text \<open>The test that marks a card of the player's hand as playable when the hand is drawn.\<close>

definition isPlayable :: "GameState \<Rightarrow> Card \<Rightarrow> bool" where
  "isPlayable s card' \<longleftrightarrow>
     turn s = Player \<and> status s = Playing \<and>
     (rank card' = R8 \<or> suit card' = currentSuit s \<or> rank card' = currentRank s)"

definition playCard :: "GameState \<Rightarrow> Card \<Rightarrow> GameState \<times> Notification option" where
  "playCard s card' =
     (if turn s \<noteq> Player \<or> status s \<noteq> Playing then (s, None)
      else if \<not> isValid s card' then (s, Some MsgInvalidPlay)
      else
        (let newPlayerHand = filter (\<lambda>c. id_card c \<noteq> id_card card') (playerHand s)
         in if isEight card' then
              (s\<lparr>playerHand := newPlayerHand,
                 discardPile := card' # discardPile s,
                 status := SuitPicking\<rparr>, Some MsgPlayedEight)
            else
              (s\<lparr>playerHand := newPlayerHand,
                 discardPile := card' # discardPile s,
                 currentSuit := suit card',
                 currentRank := rank card',
                 turn := Ai\<rparr>, Some (MsgPlayed (suit card') (rank card')))))"

definition drawCard :: "GameState \<Rightarrow> GameState \<times> Notification option" where
  "drawCard s =
     (if turn s \<noteq> Player \<or> status s \<noteq> Playing then (s, None)
      else
        (case drawPile s of
           [] \<Rightarrow> (s\<lparr>turn := Ai\<rparr>, Some MsgDrawPileEmpty)
         | drawnCard # remainingDrawPile \<Rightarrow>
             (s\<lparr>playerHand := playerHand s @ [drawnCard],
                drawPile := remainingDrawPile,
                turn := Ai\<rparr>, Some (MsgDrew (suit drawnCard) (rank drawnCard)))))"

definition pickSuit :: "GameState \<Rightarrow> Suit \<Rightarrow> GameState \<times> Notification option" where
  "pickSuit s su =
     (s\<lparr>currentSuit := su,
        currentRank := R8,
        status := Playing,
        turn := Ai\<rparr>, Some (MsgSuitChanged su))"

section \<open>The initial state, the menu, and a handler with the state of its render\<close>

text \<open>The \<^verbatim>\<open>useState\<close> initialiser.\<close>

definition initialState :: GameState where
  "initialState =
     \<lparr> playerHand = [],
       aiHand = [],
       drawPile = [],
       discardPile = [],
       currentSuit = Hearts,
       currentRank = RA,
       turn = Player,
       status = Waiting,
       winner = None \<rparr>"

text \<open>
  The second button of the game-over dialog:
  \<^verbatim>\<open>setGameState(prev => ({ ...prev, status: 'waiting' }))\<close>
\<close>

definition returnToMenu :: "GameState \<Rightarrow> GameState" where
  "returnToMenu s = s\<lparr>status := Waiting\<rparr>"

text \<open>
  \<^verbatim>\<open>playCard\<close> reads \<^verbatim>\<open>gameState\<close>, the state of the render that created the handler, for its
  guard, for the legality test and for \<^verbatim>\<open>newPlayerHand\<close>; it reads \<^verbatim>\<open>prev\<close>, the state at the
  time of the update, for the discard pile and for every field it does not set.
  \<open>playCard s\<close> above is the handler run on the state of its own render.
\<close>

definition playCardHandler ::
    "GameState \<Rightarrow> Card \<Rightarrow> GameState \<Rightarrow> GameState \<times> Notification option" where
  "playCardHandler gameState card' prev =
     (if turn gameState \<noteq> Player \<or> status gameState \<noteq> Playing then (prev, None)
      else if \<not> isValid gameState card' then (prev, Some MsgInvalidPlay)
      else
        (let newPlayerHand = filter (\<lambda>c. id_card c \<noteq> id_card card') (playerHand gameState)
         in if isEight card' then
              (prev\<lparr>playerHand := newPlayerHand,
                    discardPile := card' # discardPile prev,
                    status := SuitPicking\<rparr>, Some MsgPlayedEight)
            else
              (prev\<lparr>playerHand := newPlayerHand,
                    discardPile := card' # discardPile prev,
                    currentSuit := suit card',
                    currentRank := rank card',
                    turn := Ai\<rparr>, Some (MsgPlayed (suit card') (rank card')))))"

section \<open>The deck\<close>

text \<open>
  Modelled from the spec: \<^verbatim>\<open>SUITS\<close> and \<^verbatim>\<open>createDeck\<close> of \<^verbatim>\<open>constants.ts\<close>, which is not under
  \<^verbatim>\<open>src/\<close>.  "\<^verbatim>\<open>createDeck()\<close>: produces the 52 (suit, rank) combinations in a fixed canonical
  order, each assigned a fresh unique id."  The spec does not give the text of an id;
  here it is the suit's name, a dash and the rank's name.  The theorems below are about
  any deck that is \<open>fullDeck\<close>; \<open>createDeck\<close> and its rearrangements are instances.
\<close>

definition SUITS :: "Suit list" where
  "SUITS = [Hearts, Diamonds, Clubs, Spades]"

definition RANKS :: "Rank list" where
  "RANKS = [RA, R2, R3, R4, R5, R6, R7, R8, R9, R10, RJ, RQ, RK]"

fun suitName :: "Suit \<Rightarrow> string" where
  "suitName Hearts = ''hearts''"
| "suitName Diamonds = ''diamonds''"
| "suitName Clubs = ''clubs''"
| "suitName Spades = ''spades''"

fun rankName :: "Rank \<Rightarrow> string" where
  "rankName RA = ''A''"
| "rankName R2 = ''2''"
| "rankName R3 = ''3''"
| "rankName R4 = ''4''"
| "rankName R5 = ''5''"
| "rankName R6 = ''6''"
| "rankName R7 = ''7''"
| "rankName R8 = ''8''"
| "rankName R9 = ''9''"
| "rankName R10 = ''10''"
| "rankName RJ = ''J''"
| "rankName RQ = ''Q''"
| "rankName RK = ''K''"

definition mkCard :: "Suit \<Rightarrow> Rank \<Rightarrow> Card" where
  "mkCard su r = \<lparr> id_card = suitName su @ ''-'' @ rankName r, suit = su, rank = r \<rparr>"

definition createDeck :: "Card list" where
  "createDeck = concat (map (\<lambda>su. map (mkCard su) RANKS) SUITS)"

text \<open>
  What \<^verbatim>\<open>shuffle(createDeck())\<close> hands to \<^verbatim>\<open>initGame\<close>: 52 cards, no id twice, no
  (suit, rank) pair twice, in any order.
\<close>

definition fullDeck :: "Card list \<Rightarrow> bool" where
  "fullDeck deck \<longleftrightarrow>
     length deck = 52 \<and> distinct (map id_card deck) \<and> distinct (map (\<lambda>c. (suit c, rank c)) deck)"

section \<open>Runs of the program\<close>

text \<open>
  Every place that sets the game state, as an action on the current state:
  \<^item> \<^verbatim>\<open>initGame\<close>, from the restart button of the header (always rendered), the start button
    of the menu and the first button of the game-over dialog; the deck it deals is
    \<^verbatim>\<open>shuffle(createDeck())\<close>, any full deck;
  \<^item> \<^verbatim>\<open>playCard\<close>, with any card (the function does not test that the card is in the hand);
  \<^item> a second click on the button of the card just played: the button leaves the hand
    with an exit animation and keeps the handler of the render in which the card was
    still in the hand, so that handler runs on the state the first click has set;
  \<^item> \<^verbatim>\<open>drawCard\<close>;
  \<^item> \<^verbatim>\<open>pickSuit\<close>, whose buttons are rendered only while \<^verbatim>\<open>status === 'suit-picking'\<close>;
  \<^item> \<^verbatim>\<open>handleAiTurn\<close>, which the effect schedules only when \<^verbatim>\<open>status === 'playing'\<close> and
    \<^verbatim>\<open>turn === 'ai'\<close>;
  \<^item> the return to the menu, whose button is rendered only while \<^verbatim>\<open>status === 'game-over'\<close>.

  A run is any list of enabled actions from \<open>initialState\<close>; \<open>enabled\<close> says when an action
  may occur, not that it does: the runs in which the opponent moves less often, or never,
  are runs too.
\<close>

datatype Action =
    StartGame "Card list"
  | PlayCard Card
  | PlayCardAgain GameState Card
  | DrawCard
  | PickSuit Suit
  | AiTurn
  | ReturnToMenu

text \<open>
  When \<^verbatim>\<open>initGame\<close> throws, no state is set.  In \<open>PlayCardAgain g c\<close>, \<open>g\<close> is the state of the
  render that the handler belongs to.
\<close>

fun operation :: "GameState \<Rightarrow> Action \<Rightarrow> GameState \<times> Notification option" where
  "operation s (StartGame deck) =
     (case initGame deck of Inl e \<Rightarrow> (s, None) | Inr (s', n) \<Rightarrow> (s', Some n))"
| "operation s (PlayCard c) = playCard s c"
| "operation s (PlayCardAgain g c) = playCardHandler g c s"
| "operation s DrawCard = drawCard s"
| "operation s (PickSuit su) = pickSuit s su"
| "operation s AiTurn = handleAiTurn s"
| "operation s ReturnToMenu = (returnToMenu s, None)"

text \<open>One action: the operation, then the win check on the state it has set.\<close>

definition applyAction :: "GameState \<Rightarrow> Action \<Rightarrow> GameState" where
  "applyAction s a = fst (checkWin (fst (operation s a)))"

fun enabled :: "GameState \<Rightarrow> Action \<Rightarrow> bool" where
  "enabled s (StartGame deck) \<longleftrightarrow> fullDeck deck"
| "enabled s (PlayCard c) \<longleftrightarrow> True"
| "enabled s (PlayCardAgain g c) \<longleftrightarrow> s = applyAction g (PlayCard c)"
| "enabled s DrawCard \<longleftrightarrow> True"
| "enabled s (PickSuit su) \<longleftrightarrow> status s = SuitPicking"
| "enabled s AiTurn \<longleftrightarrow> status s = Playing \<and> turn s = Ai"
| "enabled s ReturnToMenu \<longleftrightarrow> status s = GameOver"

fun exec :: "GameState \<Rightarrow> Action list \<Rightarrow> GameState option" where
  "exec s [] = Some s"
| "exec s (a # as) = (if enabled s a then exec (applyAction s a) as else None)"

text \<open>The state after the run \<open>as\<close>; \<open>None\<close> when \<open>as\<close> is not a run.\<close>

definition play :: "Action list \<Rightarrow> GameState option" where
  "play as = exec initialState as"

text \<open>Two clicks on the button of one card, from the state \<open>s\<close>.\<close>

definition doubleClick :: "GameState \<Rightarrow> Card \<Rightarrow> GameState" where
  "doubleClick s c = applyAction (applyAction s (PlayCard c)) (PlayCardAgain s c)"

definition zones :: "GameState \<Rightarrow> Card list" where
  "zones s = playerHand s @ aiHand s @ drawPile s @ discardPile s"

section \<open>Sample states\<close>

definition demoState :: GameState where
  "demoState =
     \<lparr> playerHand = [mkCard Hearts R7, mkCard Diamonds R5, mkCard Diamonds R8],
       aiHand = [mkCard Spades R8, mkCard Clubs R3, mkCard Clubs R9],
       drawPile = [mkCard Spades RK, mkCard Clubs R2],
       discardPile = [mkCard Hearts R9],
       currentSuit = Hearts,
       currentRank = R9,
       turn = Player,
       status = Playing,
       winner = None \<rparr>"

definition aiDemoState :: GameState where
  "aiDemoState = demoState\<lparr>currentRank := R2, turn := Ai\<rparr>"

definition aiMatchState :: GameState where
  "aiMatchState =
     demoState\<lparr>aiHand := [mkCard Spades R8, mkCard Clubs R3, mkCard Hearts R4, mkCard Hearts RJ],
               currentRank := R2, turn := Ai\<rparr>"

definition aiTieState :: GameState where
  "aiTieState =
     demoState\<lparr>aiHand := [mkCard Spades R8, mkCard Hearts R3, mkCard Diamonds R4],
               currentSuit := Clubs, currentRank := R2, turn := Ai\<rparr>"

text \<open>
  Following the spec's words: the first suit, in the order hearts, diamonds, clubs, spades,
  whose count in the hand reaches the maximum.
\<close>

definition firstMaxSuit :: "Card list \<Rightarrow> Suit" where
  "firstMaxSuit hand =
     (let n = (\<lambda>su. length (filter (\<lambda>c. suit c = su) hand))
      in hd (filter (\<lambda>su. \<forall>su'\<in>set SUITS. n su' \<le> n su) SUITS))"

section \<open>Sample decks\<close>

text \<open>A full deck whose remainder after the two hands starts with the four eights.\<close>

definition scanDeck :: "Card list" where
  "scanDeck =
     (let others = filter (\<lambda>c. rank c \<noteq> R8) createDeck;
          eights = filter (\<lambda>c. rank c = R8) createDeck
      in take 16 others @ eights @ drop 16 others)"

text \<open>A reduced deck: after the two hands, only eights are left.\<close>

definition shortDeck :: "Card list" where
  "shortDeck = take 16 createDeck @ [mkCard Spades R8, mkCard Clubs R8]"

text \<open>
  A full deck and, once it is dealt, a game on it in which the opponent never has a card
  to play and the player's last card is an 8.
\<close>

definition wildEndDeck :: "Card list" where
  "wildEndDeck =
     [mkCard Hearts RA, mkCard Hearts R2, mkCard Hearts R3, mkCard Hearts R4,
      mkCard Hearts R5, mkCard Hearts R6, mkCard Hearts R7, mkCard Spades R8,
      mkCard Spades R9, mkCard Spades R10, mkCard Spades RJ, mkCard Spades RQ,
      mkCard Spades RK, mkCard Clubs R9, mkCard Clubs R10, mkCard Clubs RJ,
      mkCard Hearts R9, mkCard Clubs RQ, mkCard Clubs RK, mkCard Diamonds R9,
      mkCard Diamonds R10, mkCard Diamonds RJ, mkCard Diamonds RQ, mkCard Diamonds RK,
      mkCard Hearts R8, mkCard Hearts R10, mkCard Hearts RJ, mkCard Hearts RQ,
      mkCard Hearts RK, mkCard Diamonds RA, mkCard Diamonds R2, mkCard Diamonds R3,
      mkCard Diamonds R4, mkCard Diamonds R5, mkCard Diamonds R6, mkCard Diamonds R7,
      mkCard Diamonds R8, mkCard Clubs RA, mkCard Clubs R2, mkCard Clubs R3,
      mkCard Clubs R4, mkCard Clubs R5, mkCard Clubs R6, mkCard Clubs R7,
      mkCard Clubs R8, mkCard Spades RA, mkCard Spades R2, mkCard Spades R3,
      mkCard Spades R4, mkCard Spades R5, mkCard Spades R6, mkCard Spades R7]"


text \<open>The state after the deal of that deck.\<close>

definition wildEndStart :: GameState where
  "wildEndStart = applyAction initialState (StartGame wildEndDeck)"

section \<open>States after the win check\<close>


section \<open>Properties\<close>

subsection \<open>Scanning and removing by index\<close>

lemma findIndex_Some_iff:
  "findIndex P xs = Some i \<longleftrightarrow> i < length xs \<and> P (xs ! i) \<and> (\<forall>j<i. \<not> P (xs ! j))"
proof (induction xs arbitrary: i)
  case Nil
  then show ?case by simp
next
  case (Cons x xs)
  show ?case
  proof (cases "P x")
    case True
    then show ?thesis by (cases i) auto
  next
    case False
    show ?thesis
    proof (cases i)
      case 0
      with False show ?thesis by auto
    next
      case (Suc k)
      with False Cons.IH [of k] show ?thesis
        by (auto simp: less_Suc_eq_0_disj)
    qed
  qed
qed

lemma findIndex_None_iff: "findIndex P xs = None \<longleftrightarrow> (\<forall>x\<in>set xs. \<not> P x)"
  by (induction xs) auto

lemma filterIndexNot_shift:
  "map snd (filter (\<lambda>(i, _). i \<noteq> n + k) (enumerate n xs)) = take k xs @ drop (Suc k) xs"
proof (induction xs arbitrary: n k)
  case Nil
  then show ?case by simp
next
  case (Cons x xs)
  show ?case
  proof (cases k)
    case 0
    have "filter (\<lambda>(i, _). i \<noteq> n) (enumerate (Suc n) xs) = enumerate (Suc n) xs"
      by (rule filter_True) (auto simp: in_set_enumerate_eq)
    with 0 show ?thesis by simp
  next
    case (Suc m)
    with Cons.IH [of "Suc n" m] show ?thesis by simp
  qed
qed

lemma filterIndexNot_eq: "filterIndexNot k xs = take k xs @ drop (Suc k) xs"
  using filterIndexNot_shift [of 0 k xs] by (simp add: filterIndexNot_def)

lemma mset_filterIndexNot:
  "k < length xs \<Longrightarrow> mset (filterIndexNot k xs) + {#xs ! k#} = mset xs"
proof -
  assume k: "k < length xs"
  then have "xs = take k xs @ xs ! k # drop (Suc k) xs"
    by (rule id_take_nth_drop)
  then have "mset xs = mset (take k xs @ xs ! k # drop (Suc k) xs)"
    by simp
  then show ?thesis
    by (simp add: filterIndexNot_eq)
qed

subsection \<open>Counting suits\<close>

lemma suitCounts_fold:
  "foldl (\<lambda>m c. m(suit c := m (suit c) + 1)) m0 hand su =
     m0 su + length (filter (\<lambda>c. suit c = su) hand)"
  by (induction hand arbitrary: m0) auto

lemma suitCounts_eq: "suitCounts hand su = length (filter (\<lambda>c. suit c = su) hand)"
  using suitCounts_fold [of "\<lambda>_. 0" hand su] by (simp add: suitCounts_def)

lemma bestSuit_unfold:
  "bestSuit hand =
     (let n = suitCounts hand;
          a1 = (if n Hearts > n Diamonds then Hearts else Diamonds);
          a2 = (if n a1 > n Clubs then a1 else Clubs)
      in if n a2 > n Spades then a2 else Spades)"
  by (simp add: bestSuit_def suitKeys_def Let_def)

subsection \<open>Removing a card by id\<close>

lemma filter_id_mset:
  fixes xs :: "Card list"
  shows "distinct (map id_card xs) \<Longrightarrow> c \<in> set xs \<Longrightarrow>
     mset (filter (\<lambda>x. id_card x \<noteq> id_card c) xs) + {#c#} = mset xs"
proof (induction xs)
  case Nil
  then show ?case by simp
next
  case (Cons x xs)
  show ?case
  proof (cases "x = c")
    case True
    with Cons.prems have "id_card c \<notin> id_card ` set xs"
      by simp
    have "\<forall>y\<in>set xs. id_card y \<noteq> id_card c"
    proof
      fix y
      assume "y \<in> set xs"
      then have "id_card y \<in> id_card ` set xs"
        by (rule imageI)
      with \<open>id_card c \<notin> id_card ` set xs\<close> show "id_card y \<noteq> id_card c"
        by metis
    qed
    then have "filter (\<lambda>x. id_card x \<noteq> id_card c) xs = xs"
      by simp
    with True show ?thesis by simp
  next
    case False
    with Cons.prems have "c \<in> set xs" and "id_card x \<noteq> id_card c"
      by auto
    with Cons show ?thesis by simp
  qed
qed

subsection \<open>The player's actions\<close>

text \<open>
  Claim C2.  The legality test of \<^verbatim>\<open>playCard\<close> holds exactly when the card's rank is 8, or its
  suit is the current suit, or its rank is the current rank; a card of rank 8 passes it
  whatever the current suit and rank are; its value depends on the state only through
  the current suit and rank; the test that highlights playable cards is the same test
  under the turn and status conditions; and on the player's turn \<^verbatim>\<open>playCard\<close> rejects a card
  exactly when the test fails.
\<close>

theorem legality_predicate:
  "(isValid s c \<longleftrightarrow> rank c = R8 \<or> suit c = currentSuit s \<or> rank c = currentRank s)
   \<and> (rank c = R8 \<longrightarrow> isValid s c)
   \<and> (currentSuit s = currentSuit t \<and> currentRank s = currentRank t \<longrightarrow> isValid s c = isValid t c)
   \<and> (isPlayable s c \<longleftrightarrow> turn s = Player \<and> status s = Playing \<and> isValid s c)
   \<and> (turn s = Player \<and> status s = Playing \<longrightarrow>
        (playCard s c = (s, Some MsgInvalidPlay) \<longleftrightarrow> \<not> isValid s c))"
  by (auto simp: isValid_def isEight_def isPlayable_def playCard_def Let_def)

theorem legality_predicate_witness:
  "isValid demoState (mkCard Diamonds R8) \<and> isValid demoState (mkCard Hearts R7)
   \<and> \<not> isValid demoState (mkCard Diamonds R5)
   \<and> playCard demoState (mkCard Diamonds R5) = (demoState, Some MsgInvalidPlay)"
  using legality_predicate [of demoState "mkCard Diamonds R8" demoState]
    legality_predicate [of demoState "mkCard Hearts R7" demoState]
    legality_predicate [of demoState "mkCard Diamonds R5" demoState]
  by (simp add: demoState_def mkCard_def)



text \<open>
  Claim C5.  On the player's turn, playing a rank-8 card removes it from the hand (by id),
  puts it on the front of the discard pile and sets the status to suit-picking, with the
  current rank, the current suit and the turn as they were; the current rank becomes 8
  when the suit is picked.  When the opponent plays an 8, the same transition sets the
  current rank to 8 and the current suit to the suit it chose.
\<close>

theorem wild_eight_rank_update:
  "(turn s = Player \<and> status s = Playing \<and> rank c = R8 \<longrightarrow>
      playCard s c =
        (s\<lparr>playerHand := filter (\<lambda>x. id_card x \<noteq> id_card c) (playerHand s),
           discardPile := c # discardPile s,
           status := SuitPicking\<rparr>, Some MsgPlayedEight)
      \<and> c \<notin> set (playerHand (fst (playCard s c)))
      \<and> (c \<in> set (playerHand s) \<and> distinct (map id_card (playerHand s)) \<longrightarrow>
           mset (playerHand (fst (playCard s c))) + {#c#} = mset (playerHand s))
      \<and> currentRank (fst (playCard s c)) = currentRank s
      \<and> currentSuit (fst (playCard s c)) = currentSuit s
      \<and> turn (fst (playCard s c)) = Player
      \<and> currentRank (fst (pickSuit (fst (playCard s c)) su)) = R8)
   \<and> (findIndex (aiMatches t) (aiHand t) = None \<and>
      findIndex (\<lambda>x. rank x = R8) (aiHand t) = Some i \<longrightarrow>
        rank (aiHand t ! i) = R8
        \<and> discardPile (fst (handleAiTurn t)) = aiHand t ! i # discardPile t
        \<and> currentRank (fst (handleAiTurn t)) = R8
        \<and> currentSuit (fst (handleAiTurn t)) = bestSuit (aiHand (fst (handleAiTurn t)))
        \<and> status (fst (handleAiTurn t)) = status t)"
proof -
  have player: "playCard s c =
        (s\<lparr>playerHand := filter (\<lambda>x. id_card x \<noteq> id_card c) (playerHand s),
           discardPile := c # discardPile s,
           status := SuitPicking\<rparr>, Some MsgPlayedEight)"
    if "turn s = Player" "status s = Playing" "rank c = R8"
    using that by (simp add: playCard_def isValid_def isEight_def)
  have ai: "rank (aiHand t ! i) = R8
        \<and> discardPile (fst (handleAiTurn t)) = aiHand t ! i # discardPile t
        \<and> currentRank (fst (handleAiTurn t)) = R8
        \<and> currentSuit (fst (handleAiTurn t)) = bestSuit (aiHand (fst (handleAiTurn t)))
        \<and> status (fst (handleAiTurn t)) = status t"
    if "findIndex (aiMatches t) (aiHand t) = None"
      "findIndex (\<lambda>x. rank x = R8) (aiHand t) = Some i"
  proof -
    from that(2) have "rank (aiHand t ! i) = R8"
      by (simp add: findIndex_Some_iff)
    with that show ?thesis
      by (simp add: handleAiTurn_def Let_def)
  qed
  have removed: "mset (playerHand (fst (playCard s c))) + {#c#} = mset (playerHand s)"
    if "turn s = Player" "status s = Playing" "rank c = R8"
      "c \<in> set (playerHand s)" "distinct (map id_card (playerHand s))"
    using that player filter_id_mset [of "playerHand s" c] by simp
  show ?thesis
    using player ai removed by (simp add: pickSuit_def)
qed

theorem wild_eight_rank_update_witness:
  "currentRank (fst (playCard demoState (mkCard Diamonds R8))) = R9
   \<and> status (fst (playCard demoState (mkCard Diamonds R8))) = SuitPicking
   \<and> playerHand (fst (playCard demoState (mkCard Diamonds R8))) = [mkCard Hearts R7, mkCard Diamonds R5]
   \<and> currentRank (fst (handleAiTurn aiDemoState)) = R8"
  using wild_eight_rank_update
      [where s = demoState and c = "mkCard Diamonds R8" and t = aiDemoState and i = 0 and su = Hearts]
  by (simp add: aiDemoState_def demoState_def mkCard_def aiMatches_def)

text \<open>
  Claim C6, as amended.  \<^verbatim>\<open>pickSuit\<close> checks no phase: in every state, whatever its status, it
  sets the current suit to the chosen suit, the current rank to 8, the status to playing
  and the turn to the opponent, and leaves hands, piles and winner as they are.  (Only
  the interface restricts it, by rendering the suit buttons while the status is
  suit-picking.)
\<close>

theorem pickSuit_unguarded:
  "pickSuit s su =
     (s\<lparr>currentSuit := su, currentRank := R8, status := Playing, turn := Ai\<rparr>,
      Some (MsgSuitChanged su))
   \<and> playerHand (fst (pickSuit s su)) = playerHand s
   \<and> aiHand (fst (pickSuit s su)) = aiHand s
   \<and> drawPile (fst (pickSuit s su)) = drawPile s
   \<and> discardPile (fst (pickSuit s su)) = discardPile s
   \<and> winner (fst (pickSuit s su)) = winner s"
  by (simp add: pickSuit_def)

text \<open>
  Claim C6 as stated fails: in a state whose status is playing, \<^verbatim>\<open>pickSuit\<close> changes the
  state.
\<close>

theorem pickSuit_noop_counterexample:
  "status demoState \<noteq> SuitPicking \<and> fst (pickSuit demoState Spades) \<noteq> demoState
   \<and> currentSuit (fst (pickSuit demoState Spades)) = Spades
   \<and> currentRank (fst (pickSuit demoState Spades)) = R8
   \<and> turn (fst (pickSuit demoState Spades)) = Ai"
  by (simp add: pickSuit_def demoState_def)

text \<open>
  Claim C9.  On the player's turn, \<^verbatim>\<open>drawCard\<close> with a non-empty draw pile moves its head card
  to the end of the player's hand and gives the turn to the opponent; with an empty draw
  pile it only gives the turn to the opponent.
\<close>

theorem player_draw:
  "turn s = Player \<and> status s = Playing \<longrightarrow>
     (drawPile s \<noteq> [] \<longrightarrow>
        drawCard s =
          (s\<lparr>playerHand := playerHand s @ [hd (drawPile s)],
             drawPile := tl (drawPile s),
             turn := Ai\<rparr>,
           Some (MsgDrew (suit (hd (drawPile s))) (rank (hd (drawPile s))))))
     \<and> (drawPile s = [] \<longrightarrow> drawCard s = (s\<lparr>turn := Ai\<rparr>, Some MsgDrawPileEmpty))"
  by (cases "drawPile s") (simp_all add: drawCard_def)

theorem player_draw_witness:
  "drawCard demoState =
     (demoState\<lparr>playerHand := [mkCard Hearts R7, mkCard Diamonds R5, mkCard Diamonds R8, mkCard Spades RK],
                drawPile := [mkCard Clubs R2], turn := Ai\<rparr>, Some (MsgDrew Spades RK))
   \<and> drawCard (demoState\<lparr>drawPile := []\<rparr>) =
       (demoState\<lparr>drawPile := [], turn := Ai\<rparr>, Some MsgDrawPileEmpty)"
  using player_draw [of demoState] player_draw [of "demoState\<lparr>drawPile := []\<rparr>"]
  by (simp add: demoState_def mkCard_def)

subsection \<open>The opponent's turn\<close>

lemma bestSuit_last_max:
  "\<exists>k<length suitKeys. bestSuit hand = suitKeys ! k
     \<and> (\<forall>j<length suitKeys. suitCounts hand (suitKeys ! j) \<le> suitCounts hand (suitKeys ! k))
     \<and> (\<forall>j<length suitKeys. k < j \<longrightarrow> suitCounts hand (suitKeys ! j) < suitCounts hand (suitKeys ! k))"
proof -
  define h d c p where "h = suitCounts hand Hearts" and "d = suitCounts hand Diamonds"
    and "c = suitCounts hand Clubs" and "p = suitCounts hand Spades"
  have b: "bestSuit hand =
     (let a1 = (if h > d then Hearts else Diamonds);
          a2 = (if suitCounts hand a1 > c then a1 else Clubs)
      in if suitCounts hand a2 > p then a2 else Spades)"
    by (simp add: bestSuit_unfold Let_def h_def d_def c_def p_def)
  have four: "(\<forall>j<length suitKeys. P j) \<longleftrightarrow> P 0 \<and> P 1 \<and> P 2 \<and> P 3" for P
    by (auto simp: suitKeys_def eval_nat_numeral All_less_Suc)
  have nth: "suitKeys ! 0 = Hearts" "suitKeys ! 1 = Diamonds" "suitKeys ! 2 = Clubs" "suitKeys ! 3 = Spades"
    by (simp_all add: suitKeys_def eval_nat_numeral)
  consider (H) "bestSuit hand = Hearts" | (D) "bestSuit hand = Diamonds"
    | (C) "bestSuit hand = Clubs" | (S) "bestSuit hand = Spades"
    by (cases "bestSuit hand") auto
  then show ?thesis
  proof cases
    case H
    with b have "h > d \<and> h > c \<and> h > p"
      by (auto simp: Let_def h_def d_def c_def p_def split: if_splits)
    with H nth show ?thesis
      unfolding four by (intro exI [of _ 0]) (simp add: suitKeys_def h_def d_def c_def p_def)
  next
    case D
    with b have "d \<ge> h \<and> d > c \<and> d > p"
      by (auto simp: Let_def h_def d_def c_def p_def split: if_splits)
    with D nth show ?thesis
      unfolding four by (intro exI [of _ 1]) (simp add: suitKeys_def h_def d_def c_def p_def)
  next
    case C
    with b have "c \<ge> h \<and> c \<ge> d \<and> c > p"
      by (auto simp: Let_def h_def d_def c_def p_def split: if_splits)
    with C nth show ?thesis
      unfolding four by (intro exI [of _ 2]) (simp add: suitKeys_def h_def d_def c_def p_def)
  next
    case S
    with b have "p \<ge> h \<and> p \<ge> d \<and> p \<ge> c"
      by (auto simp: Let_def h_def d_def c_def p_def split: if_splits)
    with S nth show ?thesis
      unfolding four by (intro exI [of _ 3]) (simp add: suitKeys_def h_def d_def c_def p_def)
  qed
qed

lemma handleAiTurn_wild:
  assumes "findIndex (aiMatches s) (aiHand s) = None"
    and "findIndex (\<lambda>c. rank c = R8) (aiHand s) = Some i"
  shows "handleAiTurn s =
     (s\<lparr>aiHand := take i (aiHand s) @ drop (Suc i) (aiHand s),
        discardPile := aiHand s ! i # discardPile s,
        currentSuit := bestSuit (take i (aiHand s) @ drop (Suc i) (aiHand s)),
        currentRank := R8,
        turn := Player\<rparr>,
      Some (MsgAiEight (bestSuit (take i (aiHand s) @ drop (Suc i) (aiHand s)))))"
  using assms by (simp add: handleAiTurn_def Let_def filterIndexNot_eq)

text \<open>
  Claim C8, as amended.  When the opponent plays an 8 (no matching card, first 8 at index
  \<open>i\<close>), its hand becomes the hand without that card, and the new current suit is a suit
  whose count in that remaining hand is the highest; when several suits reach the
  highest count, it is the last of them in the order hearts, diamonds, clubs, spades:
  every suit after the chosen one has a strictly smaller count.
\<close>

theorem opponent_wild_suit_choice:
  assumes "findIndex (aiMatches s) (aiHand s) = None"
    and "findIndex (\<lambda>c. rank c = R8) (aiHand s) = Some i"
  shows "aiHand (fst (handleAiTurn s)) = take i (aiHand s) @ drop (Suc i) (aiHand s)
    \<and> (\<exists>k<length suitKeys. currentSuit (fst (handleAiTurn s)) = suitKeys ! k
         \<and> (\<forall>j<length suitKeys.
               length (filter (\<lambda>c. suit c = suitKeys ! j) (aiHand (fst (handleAiTurn s))))
               \<le> length (filter (\<lambda>c. suit c = suitKeys ! k) (aiHand (fst (handleAiTurn s)))))
         \<and> (\<forall>j<length suitKeys. k < j \<longrightarrow>
               length (filter (\<lambda>c. suit c = suitKeys ! j) (aiHand (fst (handleAiTurn s))))
               < length (filter (\<lambda>c. suit c = suitKeys ! k) (aiHand (fst (handleAiTurn s))))))"
proof -
  let ?rest = "take i (aiHand s) @ drop (Suc i) (aiHand s)"
  from assms have "aiHand (fst (handleAiTurn s)) = ?rest"
    and "currentSuit (fst (handleAiTurn s)) = bestSuit ?rest"
    by (simp_all add: handleAiTurn_wild)
  with bestSuit_last_max [of ?rest] show ?thesis
    by (simp add: suitCounts_eq)
qed

theorem opponent_wild_suit_choice_witness:
  "aiHand (fst (handleAiTurn aiDemoState)) = [mkCard Clubs R3, mkCard Clubs R9]
   \<and> currentSuit (fst (handleAiTurn aiDemoState)) = Clubs
   \<and> currentRank (fst (handleAiTurn aiDemoState)) = R8"
proof -
  have a: "findIndex (aiMatches aiDemoState) (aiHand aiDemoState) = None"
    by (simp add: aiDemoState_def demoState_def mkCard_def aiMatches_def)
  have b: "findIndex (\<lambda>c. rank c = R8) (aiHand aiDemoState) = Some 0"
    by (simp add: aiDemoState_def demoState_def mkCard_def)
  from opponent_wild_suit_choice [OF a b] show ?thesis
    by (simp add: handleAiTurn_def aiMatches_def filterIndexNot_eq bestSuit_unfold
        suitCounts_eq aiDemoState_def demoState_def mkCard_def)
qed

text \<open>
  Claim C8 as stated fails on a tie: with one heart and one diamond left, the first suit
  reaching the maximum is hearts, and the opponent chooses diamonds.
\<close>

theorem opponent_tie_break_counterexample:
  "aiHand (fst (handleAiTurn aiTieState)) = [mkCard Hearts R3, mkCard Diamonds R4]
   \<and> firstMaxSuit (aiHand (fst (handleAiTurn aiTieState))) = Hearts
   \<and> currentSuit (fst (handleAiTurn aiTieState)) = Diamonds"
  by (simp add: handleAiTurn_def aiTieState_def demoState_def mkCard_def aiMatches_def
      filterIndexNot_eq bestSuit_unfold suitCounts_eq firstMaxSuit_def SUITS_def Let_def)

lemma handleAiTurn_match:
  assumes "findIndex (aiMatches s) (aiHand s) = Some i"
  shows "handleAiTurn s =
     (s\<lparr>aiHand := take i (aiHand s) @ drop (Suc i) (aiHand s),
        discardPile := aiHand s ! i # discardPile s,
        currentSuit := suit (aiHand s ! i),
        currentRank := rank (aiHand s ! i),
        turn := Player\<rparr>,
      Some (MsgAiPlayed (suit (aiHand s ! i)) (rank (aiHand s ! i))))"
  using assms by (simp add: handleAiTurn_def Let_def filterIndexNot_eq)

lemma handleAiTurn_draw:
  assumes "findIndex (aiMatches s) (aiHand s) = None"
    and "findIndex (\<lambda>c. rank c = R8) (aiHand s) = None"
    and "drawPile s \<noteq> []"
  shows "handleAiTurn s =
     (s\<lparr>aiHand := aiHand s @ [hd (drawPile s)],
        drawPile := tl (drawPile s),
        turn := Player\<rparr>, Some MsgAiDrew)"
  using assms by (cases "drawPile s") (simp_all add: handleAiTurn_def)

lemma handleAiTurn_pass:
  assumes "findIndex (aiMatches s) (aiHand s) = None"
    and "findIndex (\<lambda>c. rank c = R8) (aiHand s) = None"
    and "drawPile s = []"
  shows "handleAiTurn s = (s\<lparr>turn := Player\<rparr>, Some MsgAiSkipped)"
  using assms by (simp add: handleAiTurn_def)

text \<open>
  Claim C7.  On the opponent's turn, \<^verbatim>\<open>handleAiTurn\<close> does exactly one of four things, the
  first whose condition holds: it plays the first card of its hand that is not an 8 and
  matches the current suit or rank (\<open>aiMatches\<close>, which is exactly that test) (the card leaves the hand, goes to the front of the
  discard pile and sets the current suit and rank); else it plays its first 8; else,
  when the draw pile is not empty, it appends the head of the draw pile to its hand;
  else it passes.  In every case the turn goes to the player, the player's hand and the
  status are untouched, the cards of the four zones are the same, and each zone changes
  by at most one card.
\<close>

theorem opponent_policy_priority:
  assumes "turn s = Ai" and "status s = Playing"
  shows "(aiMatches s c \<longleftrightarrow>
            rank c \<noteq> R8 \<and> (suit c = currentSuit s \<or> rank c = currentRank s))
     \<and> ((\<exists>i<length (aiHand s).
            aiMatches s (aiHand s ! i) \<and> (\<forall>j<i. \<not> aiMatches s (aiHand s ! j))
            \<and> handleAiTurn s =
                (s\<lparr>aiHand := take i (aiHand s) @ drop (Suc i) (aiHand s),
                   discardPile := aiHand s ! i # discardPile s,
                   currentSuit := suit (aiHand s ! i),
                   currentRank := rank (aiHand s ! i),
                   turn := Player\<rparr>,
                 Some (MsgAiPlayed (suit (aiHand s ! i)) (rank (aiHand s ! i)))))
       \<or> ((\<forall>c\<in>set (aiHand s). \<not> aiMatches s c)
          \<and> (\<exists>i<length (aiHand s).
                rank (aiHand s ! i) = R8 \<and> (\<forall>j<i. rank (aiHand s ! j) \<noteq> R8)
                \<and> handleAiTurn s =
                    (s\<lparr>aiHand := take i (aiHand s) @ drop (Suc i) (aiHand s),
                       discardPile := aiHand s ! i # discardPile s,
                       currentSuit := bestSuit (take i (aiHand s) @ drop (Suc i) (aiHand s)),
                       currentRank := R8,
                       turn := Player\<rparr>,
                     Some (MsgAiEight (bestSuit (take i (aiHand s) @ drop (Suc i) (aiHand s)))))))
       \<or> ((\<forall>c\<in>set (aiHand s). \<not> aiMatches s c \<and> rank c \<noteq> R8)
          \<and> drawPile s \<noteq> []
          \<and> handleAiTurn s =
              (s\<lparr>aiHand := aiHand s @ [hd (drawPile s)],
                 drawPile := tl (drawPile s),
                 turn := Player\<rparr>, Some MsgAiDrew))
       \<or> ((\<forall>c\<in>set (aiHand s). \<not> aiMatches s c \<and> rank c \<noteq> R8)
          \<and> drawPile s = []
          \<and> handleAiTurn s = (s\<lparr>turn := Player\<rparr>, Some MsgAiSkipped)))
     \<and> turn (fst (handleAiTurn s)) = Player
     \<and> playerHand (fst (handleAiTurn s)) = playerHand s
     \<and> status (fst (handleAiTurn s)) = status s
     \<and> mset (zones (fst (handleAiTurn s))) = mset (zones s)
     \<and> length (aiHand (fst (handleAiTurn s))) \<le> length (aiHand s) + 1
     \<and> length (aiHand s) \<le> length (aiHand (fst (handleAiTurn s))) + 1
     \<and> length (discardPile (fst (handleAiTurn s))) \<le> length (discardPile s) + 1
     \<and> length (drawPile s) \<le> length (drawPile (fst (handleAiTurn s))) + 1"
    (is "?unfolded \<and> ?branches")
proof -
  have unfolded: ?unfolded
    by (simp add: aiMatches_def)
  have branches: ?branches
  proof (cases "findIndex (aiMatches s) (aiHand s)")
    case (Some i)
    then have i: "i < length (aiHand s)" "aiMatches s (aiHand s ! i)"
      "\<forall>j<i. \<not> aiMatches s (aiHand s ! j)"
      by (simp_all add: findIndex_Some_iff)
    note r = handleAiTurn_match [OF Some]
    from i(1) have "mset (take i (aiHand s) @ drop (Suc i) (aiHand s)) + {#aiHand s ! i#} = mset (aiHand s)"
      using mset_filterIndexNot [of i "aiHand s"] by (simp add: filterIndexNot_eq)
    then have "mset (zones (fst (handleAiTurn s))) = mset (zones s)"
      by (simp add: r zones_def)
    with i r show ?thesis
      by auto
  next
    case None
    note noMatch = this
    then have nm: "\<forall>c\<in>set (aiHand s). \<not> aiMatches s c"
      by (simp add: findIndex_None_iff)
    show ?thesis
    proof (cases "findIndex (\<lambda>c. rank c = R8) (aiHand s)")
      case (Some i)
      then have i: "i < length (aiHand s)" "rank (aiHand s ! i) = R8"
        "\<forall>j<i. rank (aiHand s ! j) \<noteq> R8"
        by (simp_all add: findIndex_Some_iff)
      note r = handleAiTurn_wild [OF noMatch Some]
      from i(1) have "mset (take i (aiHand s) @ drop (Suc i) (aiHand s)) + {#aiHand s ! i#} = mset (aiHand s)"
        using mset_filterIndexNot [of i "aiHand s"] by (simp add: filterIndexNot_eq)
      then have "mset (zones (fst (handleAiTurn s))) = mset (zones s)"
        by (simp add: r zones_def)
      with i r nm show ?thesis
        by auto
    next
      case None
      then have n8: "\<forall>c\<in>set (aiHand s). rank c \<noteq> R8"
        by (simp add: findIndex_None_iff)
      show ?thesis
      proof (cases "drawPile s")
        case Nil
        with handleAiTurn_pass [OF noMatch None] nm n8 show ?thesis
          by (simp add: zones_def)
      next
        case (Cons d ds)
        then have "drawPile s \<noteq> []" by simp
        from handleAiTurn_draw [OF noMatch None this] nm n8 Cons show ?thesis
          by (simp add: zones_def)
      qed
    qed
  qed
  from unfolded branches show ?thesis
    by (rule conjI)
qed

theorem opponent_policy_priority_witness:
  "handleAiTurn aiMatchState =
     (aiMatchState\<lparr>aiHand := [mkCard Spades R8, mkCard Clubs R3, mkCard Hearts RJ],
                   discardPile := [mkCard Hearts R4, mkCard Hearts R9],
                   currentSuit := Hearts, currentRank := R4, turn := Player\<rparr>,
      Some (MsgAiPlayed Hearts R4))"
proof -
  have a: "turn aiMatchState = Ai" and b: "status aiMatchState = Playing"
    by (simp_all add: aiMatchState_def demoState_def)
  from opponent_policy_priority [OF a b] show ?thesis
    by (simp add: handleAiTurn_def aiMatches_def filterIndexNot_eq aiMatchState_def
        demoState_def mkCard_def)
qed

subsection \<open>The deal\<close>

lemma firstCardIndex_spec:
  "firstCardIndex deck i = Inr k \<longleftrightarrow>
     i \<le> k \<and> k < length deck \<and> rank (deck ! k) \<noteq> R8 \<and> (\<forall>j. i \<le> j \<and> j < k \<longrightarrow> rank (deck ! j) = R8)"
proof (induction deck i rule: firstCardIndex.induct)
  case (1 deck i)
  show ?case
  proof (cases "length deck \<le> i")
    case True
    then show ?thesis
      by (subst firstCardIndex.simps) auto
  next
    case False
    show ?thesis
    proof (cases "rank (deck ! i) = R8")
      case True
      have "(Suc i \<le> k \<and> (\<forall>j. Suc i \<le> j \<and> j < k \<longrightarrow> rank (deck ! j) = R8)) \<longleftrightarrow>
            (i \<le> k \<and> rank (deck ! k) \<noteq> R8 \<and> (\<forall>j. i \<le> j \<and> j < k \<longrightarrow> rank (deck ! j) = R8))"
        if "rank (deck ! k) \<noteq> R8"
        using True that
        by (metis Suc_leD Suc_leI le_neq_implies_less not_less_eq_eq)
      with 1 False True show ?thesis
        by (subst firstCardIndex.simps) auto
    next
      case F: False
      with False show ?thesis
        by (subst firstCardIndex.simps) (auto simp: not_le)
    qed
  qed
qed

lemma firstCardIndex_error:
  "firstCardIndex deck i = Inl e \<longleftrightarrow> (\<forall>j. i \<le> j \<and> j < length deck \<longrightarrow> rank (deck ! j) = R8)"
proof (induction deck i rule: firstCardIndex.induct)
  case (1 deck i)
  show ?case
  proof (cases "length deck \<le> i")
    case True
    then show ?thesis
      by (subst firstCardIndex.simps) (cases e, auto)
  next
    case False
    show ?thesis
    proof (cases "rank (deck ! i) = R8")
      case True
      have "(\<forall>j. Suc i \<le> j \<and> j < length deck \<longrightarrow> rank (deck ! j) = R8) \<longleftrightarrow>
            (\<forall>j. i \<le> j \<and> j < length deck \<longrightarrow> rank (deck ! j) = R8)"
        using True by (metis Suc_leD Suc_leI le_neq_implies_less)
      with 1 False True show ?thesis
        by (subst firstCardIndex.simps) auto
    next
      case F: False
      with False show ?thesis
        by (subst firstCardIndex.simps) (auto simp: not_le)
    qed
  qed
qed

lemma UNIV_Suit: "(UNIV :: Suit set) = {Hearts, Diamonds, Clubs, Spades}"
  by (auto intro: Suit.exhaust)

lemma eights_le_4:
  fixes deck :: "Card list"
  assumes "distinct (map (\<lambda>c. (suit c, rank c)) deck)"
  shows "length (filter (\<lambda>c. rank c = R8) deck) \<le> 4"
proof -
  let ?E = "filter (\<lambda>c. rank c = R8) deck"
  from assms have "distinct (map (\<lambda>c. (suit c, rank c)) ?E)"
    by (rule distinct_map_filter)
  moreover have "map (\<lambda>c. (suit c, rank c)) ?E = map (\<lambda>su. (su, R8)) (map suit ?E)"
    by (induction deck) auto
  ultimately have "distinct (map suit ?E)"
    by (simp only: distinct_map [of "\<lambda>su. (su, R8)"])
  then have "length (map suit ?E) = card (set (map suit ?E))"
    by (simp only: distinct_card)
  also have "\<dots> \<le> card (UNIV :: Suit set)"
  proof (rule card_mono)
    show "finite (UNIV :: Suit set)"
      by (simp add: UNIV_Suit)
    show "set (map suit ?E) \<subseteq> UNIV"
      by (rule subset_UNIV)
  qed
  also have "\<dots> = 4"
    by (simp add: UNIV_Suit)
  finally show ?thesis by simp
qed

lemma eights_drop_le:
  "length (filter P (drop n xs)) \<le> length (filter P xs)"
proof -
  have "length (filter P xs) = length (filter P (take n xs)) + length (filter P (drop n xs))"
    by (metis append_take_drop_id filter_append length_append)
  then show ?thesis by simp
qed

lemma fullDeck_scan:
  assumes "fullDeck deck"
  shows "\<exists>k. firstCardIndex (drop 16 deck) 0 = Inr k \<and> k \<le> 4"
proof -
  let ?d = "drop 16 deck"
  from assms have len: "length ?d = 36"
    by (simp add: fullDeck_def)
  from assms have e4: "length (filter (\<lambda>c. rank c = R8) ?d) \<le> 4"
    using eights_le_4 [of deck] eights_drop_le [of "\<lambda>c. rank c = R8" 16 deck]
    by (simp add: fullDeck_def)
  have "firstCardIndex ?d 0 \<noteq> Inl e" for e
  proof
    assume "firstCardIndex ?d 0 = Inl e"
    then have "\<forall>c\<in>set ?d. rank c = R8"
      by (auto simp: firstCardIndex_error in_set_conv_nth)
    then have "filter (\<lambda>c. rank c = R8) ?d = ?d"
      by simp
    with e4 len show False by simp
  qed
  then obtain k where k: "firstCardIndex ?d 0 = Inr k"
    by (cases "firstCardIndex ?d 0") auto
  then have kl: "k < length ?d" and pre: "\<forall>j<k. rank (?d ! j) = R8"
    by (simp_all add: firstCardIndex_spec)
  then have "\<forall>c\<in>set (take k ?d). rank c = R8"
    by (auto simp: in_set_conv_nth)
  then have "filter (\<lambda>c. rank c = R8) (take k ?d) = take k ?d"
    by simp
  then have "length (filter (\<lambda>c. rank c = R8) (take k ?d)) = k"
    using kl by simp
  moreover have "length (filter (\<lambda>c. rank c = R8) (take k ?d)) \<le> length (filter (\<lambda>c. rank c = R8) ?d)"
    by (metis append_take_drop_id filter_append length_append le_add1)
  ultimately have "k \<le> 4"
    using e4 by simp
  with k show ?thesis by blast
qed

lemma initGame_Inr:
  assumes "firstCardIndex (drop 16 deck) 0 = Inr k"
  shows "initGame deck =
     Inr (\<lparr> playerHand = take 8 deck,
            aiHand = take 8 (drop 8 deck),
            drawPile = take k (drop 16 deck) @ drop (Suc k) (drop 16 deck),
            discardPile = [drop 16 deck ! k],
            currentSuit = suit (drop 16 deck ! k),
            currentRank = rank (drop 16 deck ! k),
            turn = Player,
            status = Playing,
            winner = None \<rparr>, MsgYourTurn)"
  using assms by (simp add: initGame_def INITIAL_HAND_SIZE_def Let_def)

lemma firstCardIndex_error_set:
  "firstCardIndex d 0 = Inl e \<longleftrightarrow> (\<forall>c\<in>set d. rank c = R8)"
  by (simp add: firstCardIndex_error all_set_conv_all_nth)

lemma initGame_Inl:
  "initGame deck = Inl e \<longleftrightarrow> firstCardIndex (drop 16 deck) 0 = Inl e"
  by (simp add: initGame_def INITIAL_HAND_SIZE_def Let_def split: sum.splits)

lemma scanReads_Inr:
  "firstCardIndex deck i = Inr k \<Longrightarrow> scanReads deck i = [i..<Suc k]"
proof (induction deck i rule: firstCardIndex.induct)
  case (1 deck i)
  show ?case
  proof (cases "length deck \<le> i")
    case True
    with "1.prems" show ?thesis
      by (simp add: firstCardIndex.simps [of deck i])
  next
    case False
    show ?thesis
    proof (cases "rank (deck ! i) = R8")
      case True
      with False "1.prems" have next_k: "firstCardIndex deck (Suc i) = Inr k"
        by (simp add: firstCardIndex.simps [of deck i])
      then have "Suc i \<le> k"
        by (simp add: firstCardIndex_spec)
      then have "[i..<Suc k] = i # [Suc i..<Suc k]"
        by (simp add: upt_conv_Cons)
      with "1.IH" [OF False True next_k] False True show ?thesis
        by (simp add: scanReads.simps [of deck i])
    next
      case F: False
      with False "1.prems" have "k = i"
        by (simp add: firstCardIndex.simps [of deck i])
      with False F show ?thesis
        by (simp add: scanReads.simps [of deck i])
    qed
  qed
qed

lemma scanReads_Inl:
  "firstCardIndex deck i = Inl e \<Longrightarrow> i \<le> length deck \<Longrightarrow>
     scanReads deck i = [i..<Suc (length deck)]"
proof (induction deck i rule: firstCardIndex.induct)
  case (1 deck i)
  show ?case
  proof (cases "length deck \<le> i")
    case True
    with "1.prems" have "i = length deck"
      by simp
    then show ?thesis
      by (simp add: scanReads.simps [of deck "length deck"])
  next
    case False
    show ?thesis
    proof (cases "rank (deck ! i) = R8")
      case True
      with False "1.prems" have next_e: "firstCardIndex deck (Suc i) = Inl e"
        by (simp add: firstCardIndex.simps [of deck i])
      from False have "Suc i \<le> length deck"
        by simp
      with "1.IH" [OF False True next_e] have "scanReads deck (Suc i) = [Suc i..<Suc (length deck)]"
        by simp
      moreover from False have "[i..<Suc (length deck)] = i # [Suc i..<Suc (length deck)]"
        by (simp add: upt_conv_Cons)
      ultimately show ?thesis
        using False True by (simp add: scanReads.simps [of deck i])
    next
      case F: False
      with False "1.prems" show ?thesis
        by (simp add: firstCardIndex.simps [of deck i])
    qed
  qed
qed

lemma scanReads_past_end:
  "length deck \<in> set (scanReads deck 0) \<longleftrightarrow> (\<exists>e. firstCardIndex deck 0 = Inl e)"
proof (cases "firstCardIndex deck 0")
  case (Inl e)
  then show ?thesis
    by (simp add: scanReads_Inl)
next
  case (Inr k)
  then have "k < length deck"
    by (simp add: firstCardIndex_spec)
  with Inr show ?thesis
    by (simp add: scanReads_Inr)
qed

text \<open>
  Claim C10, as amended.  On a full deck the scan of the remainder after the two hands
  reads the indices 0 to \<open>k\<close> only, where \<open>k\<close>, at most 4 and inside the remainder, is the
  index of the first card that is not an 8, and \<^verbatim>\<open>initGame\<close> produces the initial state: 8
  and 8 cards in the hands, that card alone on the discard pile and 35 cards in the draw
  pile.  When the remainder holds no card other than an 8, nothing handles the case: the
  scan reads every index up to the length of the remainder, one past its end, and
  \<^verbatim>\<open>initGame\<close> ends with the \<^verbatim>\<open>TypeError\<close> of that read, before any state is set; this is the
  only way in which \<^verbatim>\<open>initGame\<close> fails.
\<close>

theorem deal_scan_safety:
  "(fullDeck deck \<longrightarrow>
      (\<exists>k s. firstCardIndex (drop (2 * INITIAL_HAND_SIZE) deck) 0 = Inr k
         \<and> k < length (drop (2 * INITIAL_HAND_SIZE) deck) \<and> k \<le> 4
         \<and> rank (drop (2 * INITIAL_HAND_SIZE) deck ! k) \<noteq> R8
         \<and> initGame deck = Inr (s, MsgYourTurn)
         \<and> discardPile s = [drop (2 * INITIAL_HAND_SIZE) deck ! k]
         \<and> length (playerHand s) = 8 \<and> length (aiHand s) = 8 \<and> length (drawPile s) = 35
         \<and> status s = Playing \<and> turn s = Player \<and> winner s = None
         \<and> scanReads (drop (2 * INITIAL_HAND_SIZE) deck) 0 = [0..<Suc k]))
   \<and> (initGame deck' = Inl TypeError \<longleftrightarrow>
        (\<forall>c\<in>set (drop (2 * INITIAL_HAND_SIZE) deck'). rank c = R8))
   \<and> (initGame deck' = Inl TypeError \<longleftrightarrow>
        length (drop (2 * INITIAL_HAND_SIZE) deck')
          \<in> set (scanReads (drop (2 * INITIAL_HAND_SIZE) deck') 0))
   \<and> (initGame deck' = Inl TypeError \<longrightarrow>
        scanReads (drop (2 * INITIAL_HAND_SIZE) deck') 0
          = [0..<Suc (length (drop (2 * INITIAL_HAND_SIZE) deck'))])"
proof -
  have ok: "\<exists>k s. firstCardIndex (drop 16 deck) 0 = Inr k
         \<and> k < length (drop 16 deck) \<and> k \<le> 4
         \<and> rank (drop 16 deck ! k) \<noteq> R8
         \<and> initGame deck = Inr (s, MsgYourTurn)
         \<and> discardPile s = [drop 16 deck ! k]
         \<and> length (playerHand s) = 8 \<and> length (aiHand s) = 8 \<and> length (drawPile s) = 35
         \<and> status s = Playing \<and> turn s = Player \<and> winner s = None
         \<and> scanReads (drop 16 deck) 0 = [0..<Suc k]"
    if full: "fullDeck deck"
  proof -
    from fullDeck_scan [OF full] obtain k
      where k: "firstCardIndex (drop 16 deck) 0 = Inr k" and k4: "k \<le> 4"
      by blast
    from k have kl: "k < length (drop 16 deck)" and r: "rank (drop 16 deck ! k) \<noteq> R8"
      by (simp_all add: firstCardIndex_spec)
    from full have len: "length deck = 52"
      by (simp add: fullDeck_def)
    with kl have "length (take k (drop 16 deck) @ drop (Suc k) (drop 16 deck)) = 35"
      by simp
    moreover note scanReads_Inr [OF k]
    ultimately show ?thesis
      using k k4 kl r len by (simp add: initGame_Inr [OF k])
  qed
  have bad: "initGame deck' = Inl TypeError \<longleftrightarrow> (\<forall>c\<in>set (drop 16 deck'). rank c = R8)"
    by (simp only: initGame_Inl firstCardIndex_error_set)
  have e: "(\<exists>e. firstCardIndex (drop 16 deck') 0 = Inl e)
      \<longleftrightarrow> firstCardIndex (drop 16 deck') 0 = Inl TypeError"
  proof
    assume "\<exists>e. firstCardIndex (drop 16 deck') 0 = Inl e"
    then obtain e where "firstCardIndex (drop 16 deck') 0 = Inl e"
      by blast
    then show "firstCardIndex (drop 16 deck') 0 = Inl TypeError"
      by (cases e) simp
  next
    assume "firstCardIndex (drop 16 deck') 0 = Inl TypeError"
    then show "\<exists>e. firstCardIndex (drop 16 deck') 0 = Inl e"
      by blast
  qed
  have past: "initGame deck' = Inl TypeError \<longleftrightarrow>
      length (drop 16 deck') \<in> set (scanReads (drop 16 deck') 0)"
    by (simp only: initGame_Inl scanReads_past_end e)
  have reads: "scanReads (drop 16 deck') 0 = [0..<Suc (length (drop 16 deck'))]"
    if "initGame deck' = Inl TypeError"
    using that by (simp add: initGame_Inl scanReads_Inl)
  from ok bad past reads show ?thesis
    by (simp add: INITIAL_HAND_SIZE_def)
qed

theorem deal_scan_safety_witness:
  "fullDeck scanDeck
   \<and> firstCardIndex (drop 16 scanDeck) 0 = Inr 4
   \<and> scanReads (drop 16 scanDeck) 0 = [0, 1, 2, 3, 4]
   \<and> map_sum id (\<lambda>(s, n). discardPile s) (initGame scanDeck) = Inr [mkCard Diamonds R5]
   \<and> initGame shortDeck = Inl TypeError"
proof -
  have full: "fullDeck scanDeck"
    by code_simp
  have short: "\<forall>c\<in>set (drop (2 * INITIAL_HAND_SIZE) shortDeck). rank c = R8"
    by code_simp
  have "firstCardIndex (drop 16 scanDeck) 0 = Inr 4"
    by code_simp
  moreover have "scanReads (drop 16 scanDeck) 0 = [0, 1, 2, 3, 4]"
    by code_simp
  moreover have "map_sum id (\<lambda>(s, n). discardPile s) (initGame scanDeck) = Inr [mkCard Diamonds R5]"
    by code_simp
  ultimately show ?thesis
    using deal_scan_safety [of scanDeck shortDeck] full short by simp
qed

text \<open>
  Claim C10 as stated fails where no card other than an 8 is left: with two eights after
  the hands the scan reads index 2 of a remainder of length 2, and the failure is the
  error of that read, not a handled case.
\<close>

theorem deal_scan_past_end_counterexample:
  "length (drop (2 * INITIAL_HAND_SIZE) shortDeck) = 2
   \<and> scanReads (drop (2 * INITIAL_HAND_SIZE) shortDeck) 0 = [0, 1, 2]
   \<and> initGame shortDeck = Inl TypeError"
  by code_simp

subsection \<open>Conservation of cards\<close>

lemma playCard_handler: "playCard s c = playCardHandler s c s"
  by (simp add: playCard_def playCardHandler_def)

lemma initGame_zones:
  assumes "initGame deck = Inr (s, n)"
  shows "mset (zones s) = mset deck"
proof -
  let ?d = "drop 16 deck"
  from assms obtain k where k: "firstCardIndex ?d 0 = Inr k"
    by (cases "firstCardIndex ?d 0") (auto simp: initGame_def INITIAL_HAND_SIZE_def Let_def)
  then have kl: "k < length ?d"
    by (simp add: firstCardIndex_spec)
  from assms initGame_Inr [OF k]
  have s: "zones s = take 8 deck @ take 8 (drop 8 deck) @ (take k ?d @ drop (Suc k) ?d) @ [?d ! k]"
    by (auto simp: zones_def)
  from kl have "mset (take k ?d @ drop (Suc k) ?d) + {#?d ! k#} = mset ?d"
    using mset_filterIndexNot [of k ?d] by (simp add: filterIndexNot_eq)
  then have "mset (zones s) = mset (take 8 deck) + (mset (take 8 (drop 8 deck)) + mset ?d)"
    by (simp add: s)
  also have "mset (take 8 (drop 8 deck)) + mset ?d = mset (drop 8 deck)"
    using append_take_drop_id [of 8 "drop 8 deck"]
    by (metis add.commute drop_drop mset_append numeral_Bit0)
  also have "mset (take 8 deck) + mset (drop 8 deck) = mset deck"
    by (metis append_take_drop_id mset_append)
  finally show ?thesis .
qed

lemma checkWin_zones: "zones (fst (checkWin s)) = zones s"
  by (simp add: checkWin_def zones_def)

lemma playCard_zones:
  assumes "c \<in> set (playerHand s)" and "distinct (map id_card (playerHand s))"
  shows "mset (zones (fst (playCard s c))) = mset (zones s)"
proof -
  from filter_id_mset [OF assms(2) assms(1)]
  have "add_mset c (mset (filter (\<lambda>x. id_card x \<noteq> id_card c) (playerHand s))) = mset (playerHand s)"
    by simp
  then show ?thesis
    by (simp add: playCard_def zones_def Let_def del: mset_filter)
qed

lemma drawCard_zones: "mset (zones (fst (drawCard s))) = mset (zones s)"
  by (cases "drawPile s") (simp_all add: drawCard_def zones_def)

lemma pickSuit_zones: "zones (fst (pickSuit s su)) = zones s"
  by (simp add: pickSuit_def zones_def)

lemma returnToMenu_zones: "zones (returnToMenu s) = zones s"
  by (simp add: returnToMenu_def zones_def)

lemma handleAiTurn_zones: "mset (zones (fst (handleAiTurn s))) = mset (zones s)"
proof (cases "findIndex (aiMatches s) (aiHand s)")
  case (Some i)
  then have "i < length (aiHand s)"
    by (simp add: findIndex_Some_iff)
  then have "mset (take i (aiHand s) @ drop (Suc i) (aiHand s)) + {#aiHand s ! i#} = mset (aiHand s)"
    using mset_filterIndexNot [of i "aiHand s"] by (simp add: filterIndexNot_eq)
  then show ?thesis
    by (simp add: handleAiTurn_match [OF Some] zones_def)
next
  case None
  note noMatch = this
  show ?thesis
  proof (cases "findIndex (\<lambda>c. rank c = R8) (aiHand s)")
    case (Some i)
    then have "i < length (aiHand s)"
      by (simp add: findIndex_Some_iff)
    then have "mset (take i (aiHand s) @ drop (Suc i) (aiHand s)) + {#aiHand s ! i#} = mset (aiHand s)"
      using mset_filterIndexNot [of i "aiHand s"] by (simp add: filterIndexNot_eq)
    then show ?thesis
      by (simp add: handleAiTurn_wild [OF noMatch Some] zones_def)
  next
    case None
    then show ?thesis
      using noMatch by (cases "drawPile s") (simp_all add: handleAiTurn_def zones_def)
  qed
qed

lemma playCard_not_in_hand:
  assumes "turn s = Player" and "status s = Playing" and "isValid s c"
    and "\<forall>x\<in>set (playerHand s). id_card x \<noteq> id_card c"
  shows "playerHand (fst (playCard s c)) = playerHand s"
    and "aiHand (fst (playCard s c)) = aiHand s"
    and "drawPile (fst (playCard s c)) = drawPile s"
    and "discardPile (fst (playCard s c)) = c # discardPile s"
  using assms by (simp_all add: playCard_def Let_def)

text \<open>
  Claim C1.  The ids of the cards in the player's hand, the opponent's hand, the draw pile
  and the discard pile together should be the 52 ids of the deck, each exactly once, in
  every state.  The deal and every operation above keep them so when \<^verbatim>\<open>playCard\<close> is given a
  card of the hand of the state it updates.  \<^verbatim>\<open>playCard\<close> does not test that: after the deal of
  a full deck, a second click on the button of the card just played puts that card on
  the discard pile a second time, which leaves 53 cards and one id twice; so does
  \<^verbatim>\<open>playCard\<close> on a legal card that is in the draw pile.
\<close>

theorem double_click_duplicates_card:
  "fullDeck wildEndDeck
   \<and> play [StartGame wildEndDeck] = Some wildEndStart
   \<and> length (zones wildEndStart) = 52
   \<and> distinct (map id_card (zones wildEndStart))
   \<and> mkCard Hearts RA \<in> set (playerHand wildEndStart)
   \<and> discardPile wildEndStart = [mkCard Hearts R9]
   \<and> play [StartGame wildEndDeck, PlayCard (mkCard Hearts RA),
            PlayCardAgain wildEndStart (mkCard Hearts RA)]
       = Some (doubleClick wildEndStart (mkCard Hearts RA))
   \<and> discardPile (doubleClick wildEndStart (mkCard Hearts RA))
       = [mkCard Hearts RA, mkCard Hearts RA, mkCard Hearts R9]
   \<and> length (playerHand (doubleClick wildEndStart (mkCard Hearts RA))) = 7
   \<and> length (zones (doubleClick wildEndStart (mkCard Hearts RA))) = 53
   \<and> \<not> distinct (map id_card (zones (doubleClick wildEndStart (mkCard Hearts RA))))
   \<and> mkCard Hearts RK \<notin> set (playerHand wildEndStart)
   \<and> play [StartGame wildEndDeck, PlayCard (mkCard Hearts RK)] \<noteq> None
   \<and> length (zones (the (play [StartGame wildEndDeck, PlayCard (mkCard Hearts RK)]))) = 53
   \<and> \<not> distinct (map id_card (zones (the (play [StartGame wildEndDeck, PlayCard (mkCard Hearts RK)]))))"
  by code_simp

subsection \<open>The end of the game\<close>


















end
